theory Spec2Isabelle
  imports Main "HOL-Library.Word"
begin

section \<open>Bytes, strings and run-time panics\<close>

text \<open>
  A Go \<^verbatim>\<open>[]byte\<close> and a Go \<^verbatim>\<open>string\<close> are both sequences of bytes, and the
  conversions \<^verbatim>\<open>string(d)\<close> and \<^verbatim>\<open>[]byte(s)\<close> copy the bytes unchanged. Both are
  lists of \<open>char\<close> here (a HOL \<open>char\<close> is one byte). A slice that may be \<^verbatim>\<open>nil\<close>
  is a \<open>bytes option\<close>, with \<open>None\<close> for \<^verbatim>\<open>nil\<close>.
\<close>

type_synonym bytes = string

text \<open>
  Indexing a slice out of range is a run-time panic in Go
  (\<^verbatim>\<open>index out of range [i] with length n\<close>). A function that can panic returns
  \<open>panic + 'a\<close>, with \<open>Inl\<close> for the panic.
\<close>

datatype panic = IndexOutOfRange nat nat

definition at_index :: "'a list \<Rightarrow> nat \<Rightarrow> panic + 'a" where
  "at_index xs i = (if i < length xs then Inr (xs ! i) else Inl (IndexOutOfRange i (length xs)))"

text \<open>
  \<^verbatim>\<open>len(d)\<close> of a slice that may be \<^verbatim>\<open>nil\<close>: the length of a \<^verbatim>\<open>nil\<close> slice is 0.
\<close>

definition len :: "bytes option \<Rightarrow> nat" where
  "len d = (case d of None \<Rightarrow> 0 | Some bs \<Rightarrow> length bs)"

text \<open>
  \<^verbatim>\<open>strings.Split(s, sep)\<close> for a separator of one byte: the substrings of \<open>s\<close> between
  the separators, in order. A string with n separators gives n + 1 substrings, so the
  result is never empty (the empty string gives one empty substring).
\<close>

fun Split :: "string \<Rightarrow> char \<Rightarrow> string list" where
  "Split [] sep = [[]]"
| "Split (c # cs) sep =
     (if c = sep then [] # Split cs sep
      else (case Split cs sep of [] \<Rightarrow> [[c]] | x # xs \<Rightarrow> (c # x) # xs))"

section \<open>The client\<close>

text \<open>
  \<^verbatim>\<open>type IQC struct\<close>. Each of the seven channels is the sequence of the messages sent
  on it so far, oldest first: a send appends. (A send on a channel at capacity waits for
  a consumer; the consumers are not part of this file, so the queues are not bounded
  here.) The message types \<^verbatim>\<open>SystemMessage\<close>, \<^verbatim>\<open>NewsMsg\<close>, \<^verbatim>\<open>ErrorMsg\<close>,
  \<^verbatim>\<open>FundamentalMsg\<close>, \<^verbatim>\<open>RegionalMsg\<close>, \<^verbatim>\<open>TimeMsg\<close> and \<^verbatim>\<open>UpdSummaryMsg\<close> are declared in
  other files of the package: they are the type parameters, in this order.
  \<^verbatim>\<open>Conn\<close> is the state of the connection, \<^verbatim>\<open>TimeLoc\<close> the loaded location (by its zone
  name), \<^verbatim>\<open>DynFields\<close> the map from index to field name (allocated by \<^verbatim>\<open>connect\<close> before
  the reader starts), \<^verbatim>\<open>previousRequestId\<close> an \<^verbatim>\<open>int64\<close>. The \<^verbatim>\<open>Quit\<close> channel is written by
  the caller: it is part of the reader's environment below.
\<close>

datatype conn = Open | Closed

type_synonym Location = string

record ('sys, 'news, 'err, 'fnd, 'reg, 'tm, 'upd) IQC =
  System :: "'sys list"
  News :: "'news list"
  Errors :: "'err list"
  Fundamental :: "'fnd list"
  Regional :: "'reg list"
  Time :: "'tm list"
  Updates :: "'upd list"
  TimeZone :: string
  TimeLoc :: Location
  CreateBackup :: bool
  BackupFile :: string
  Conn :: conn
  DynFields :: "int \<rightharpoonup> string"
  requestId :: string
  previousRequestId :: "64 word"

text \<open>
  Modelled from the spec: the \<^verbatim>\<open>UnMarshall\<close> methods of the seven message types are not in
  the source file. The spec says of them that a parser either succeeds or produces a
  best-effort zero-value message, so each is a total function of the arguments it is
  called with, and the functions are parameters of the model: nothing else is assumed
  about them. \<^verbatim>\<open>x.UnMarshall(args)\<close> on a fresh \<^verbatim>\<open>x := &T{}\<close> is the message
  \<open>T_UnMarshall P args\<close>.
\<close>

record ('sys, 'news, 'err, 'fnd, 'reg, 'tm, 'upd) parsers =
  SystemMessage_UnMarshall :: "bytes \<Rightarrow> Location \<Rightarrow> 'sys"
  NewsMsg_UnMarshall :: "bytes \<Rightarrow> Location \<Rightarrow> 'news"
  ErrorMsg_UnMarshall :: "bool \<Rightarrow> bytes \<Rightarrow> int \<Rightarrow> 'err"
  FundamentalMsg_UnMarshall :: "bytes \<Rightarrow> Location \<Rightarrow> 'fnd"
  RegionalMsg_UnMarshall :: "bytes \<Rightarrow> Location \<Rightarrow> 'reg"
  TimeMsg_UnMarshall :: "bytes \<Rightarrow> Location \<Rightarrow> 'tm"
  UpdSummaryMsg_UnMarshall :: "string list \<Rightarrow> (int \<rightharpoonup> string) \<Rightarrow> Location \<Rightarrow> 'upd"

section \<open>Dispatch\<close>

text \<open>
  The loop of \<^verbatim>\<open>processSysMsg\<close>, the same in both of its cases:
  \<^verbatim>\<open>for i := 1; i < len(pfx); i++ { c.DynFields[i-1] = pfx[i] }\<close>,
  from the value \<open>i\<close> of the loop variable and the map \<open>m\<close> so far.
\<close>

function fieldNamesLoop :: "string list \<Rightarrow> nat \<Rightarrow> (int \<rightharpoonup> string) \<Rightarrow> (int \<rightharpoonup> string)" where
  "fieldNamesLoop pfx i m =
     (if i < length pfx then fieldNamesLoop pfx (i + 1) (m(int i - 1 \<mapsto> pfx ! i)) else m)"
  by pat_completeness auto
termination
  by (relation "measure (\<lambda>(pfx, i, m). length pfx - i)") auto

declare fieldNamesLoop.simps [simp del]

definition processSysMsg ::
  "('sys, 'news, 'err, 'fnd, 'reg, 'tm, 'upd) parsers \<Rightarrow>
   ('sys, 'news, 'err, 'fnd, 'reg, 'tm, 'upd) IQC \<Rightarrow> bytes \<Rightarrow>
   panic + ('sys, 'news, 'err, 'fnd, 'reg, 'tm, 'upd) IQC" where
  "processSysMsg P c d =
     (let pfx = Split d CHR '','' in
      case at_index pfx 0 of
        Inl e \<Rightarrow> Inl e
      | Inr pfx0 \<Rightarrow>
          if pfx0 = ''UPDATE FIELDNAMES''
          then Inr (c\<lparr>DynFields := fieldNamesLoop pfx 1 (DynFields c)\<rparr>)
          else if pfx0 = ''CURRENT UPDATE FIELDNAMES''
          then Inr (c\<lparr>DynFields := fieldNamesLoop pfx 1 (DynFields c)\<rparr>)
          else Inr (c\<lparr>System := System c @ [SystemMessage_UnMarshall P d (TimeLoc c)]\<rparr>))"

definition processSummaryMsg ::
  "('sys, 'news, 'err, 'fnd, 'reg, 'tm, 'upd) parsers \<Rightarrow>
   ('sys, 'news, 'err, 'fnd, 'reg, 'tm, 'upd) IQC \<Rightarrow> bytes \<Rightarrow>
   ('sys, 'news, 'err, 'fnd, 'reg, 'tm, 'upd) IQC" where
  "processSummaryMsg P c d =
     (let items = Split d CHR '','' in
      c\<lparr>Updates := Updates c @ [UpdSummaryMsg_UnMarshall P items (DynFields c) (TimeLoc c)]\<rparr>)"

definition process404Msg ::
  "('sys, 'news, 'err, 'fnd, 'reg, 'tm, 'upd) parsers \<Rightarrow>
   ('sys, 'news, 'err, 'fnd, 'reg, 'tm, 'upd) IQC \<Rightarrow> bytes \<Rightarrow>
   ('sys, 'news, 'err, 'fnd, 'reg, 'tm, 'upd) IQC" where
  "process404Msg P c d = c\<lparr>Errors := Errors c @ [ErrorMsg_UnMarshall P True d 404]\<rparr>"

definition processErrorMsg ::
  "('sys, 'news, 'err, 'fnd, 'reg, 'tm, 'upd) parsers \<Rightarrow>
   ('sys, 'news, 'err, 'fnd, 'reg, 'tm, 'upd) IQC \<Rightarrow> bytes \<Rightarrow>
   ('sys, 'news, 'err, 'fnd, 'reg, 'tm, 'upd) IQC" where
  "processErrorMsg P c d = c\<lparr>Errors := Errors c @ [ErrorMsg_UnMarshall P False d 500]\<rparr>"

definition processUpdMsg ::
  "('sys, 'news, 'err, 'fnd, 'reg, 'tm, 'upd) parsers \<Rightarrow>
   ('sys, 'news, 'err, 'fnd, 'reg, 'tm, 'upd) IQC \<Rightarrow> bytes \<Rightarrow>
   panic + ('sys, 'news, 'err, 'fnd, 'reg, 'tm, 'upd) IQC" where
  "processUpdMsg P c d =
     (let items = Split d CHR '','' in
      case at_index items 2 of
        Inl e \<Rightarrow> Inl e
      | Inr items2 \<Rightarrow>
          if items2 = ''Not Found''
          then (case at_index items 0 of
                  Inl e \<Rightarrow> Inl e
                | Inr items0 \<Rightarrow> Inr (process404Msg P c items0))
          else Inr (c\<lparr>Updates := Updates c @
                      [UpdSummaryMsg_UnMarshall P items (DynFields c) (TimeLoc c)]\<rparr>))"

definition processTimeMsg ::
  "('sys, 'news, 'err, 'fnd, 'reg, 'tm, 'upd) parsers \<Rightarrow>
   ('sys, 'news, 'err, 'fnd, 'reg, 'tm, 'upd) IQC \<Rightarrow> bytes \<Rightarrow>
   ('sys, 'news, 'err, 'fnd, 'reg, 'tm, 'upd) IQC" where
  "processTimeMsg P c d = c\<lparr>Time := Time c @ [TimeMsg_UnMarshall P d (TimeLoc c)]\<rparr>"

definition processRegUpdMsg ::
  "('sys, 'news, 'err, 'fnd, 'reg, 'tm, 'upd) parsers \<Rightarrow>
   ('sys, 'news, 'err, 'fnd, 'reg, 'tm, 'upd) IQC \<Rightarrow> bytes \<Rightarrow>
   ('sys, 'news, 'err, 'fnd, 'reg, 'tm, 'upd) IQC" where
  "processRegUpdMsg P c d = c\<lparr>Regional := Regional c @ [RegionalMsg_UnMarshall P d (TimeLoc c)]\<rparr>"

definition processFndMsg ::
  "('sys, 'news, 'err, 'fnd, 'reg, 'tm, 'upd) parsers \<Rightarrow>
   ('sys, 'news, 'err, 'fnd, 'reg, 'tm, 'upd) IQC \<Rightarrow> bytes \<Rightarrow>
   ('sys, 'news, 'err, 'fnd, 'reg, 'tm, 'upd) IQC" where
  "processFndMsg P c d =
     c\<lparr>Fundamental := Fundamental c @ [FundamentalMsg_UnMarshall P d (TimeLoc c)]\<rparr>"

definition processNewsMsg ::
  "('sys, 'news, 'err, 'fnd, 'reg, 'tm, 'upd) parsers \<Rightarrow>
   ('sys, 'news, 'err, 'fnd, 'reg, 'tm, 'upd) IQC \<Rightarrow> bytes \<Rightarrow>
   ('sys, 'news, 'err, 'fnd, 'reg, 'tm, 'upd) IQC" where
  "processNewsMsg P c d = c\<lparr>News := News c @ [NewsMsg_UnMarshall P d (TimeLoc c)]\<rparr>"

text \<open>
  \<^verbatim>\<open>processReceiver\<close>: the guard, then the switch on byte 0 with the payload
  \<^verbatim>\<open>data := d[2:]\<close>. A switch with no default leaves the client as it is.
\<close>

definition processReceiver ::
  "('sys, 'news, 'err, 'fnd, 'reg, 'tm, 'upd) parsers \<Rightarrow>
   ('sys, 'news, 'err, 'fnd, 'reg, 'tm, 'upd) IQC \<Rightarrow> bytes option \<Rightarrow>
   panic + ('sys, 'news, 'err, 'fnd, 'reg, 'tm, 'upd) IQC" where
  "processReceiver P c d =
     (if d = None \<or> len d < 3 then Inr c
      else (case d of
        None \<Rightarrow> Inr c
      | Some bs \<Rightarrow>
          (let data = drop 2 bs in
           case at_index bs 0 of
             Inl e \<Rightarrow> Inl e
           | Inr d0 \<Rightarrow>
               if d0 = CHR 0x53 then processSysMsg P c data
               else if d0 = CHR 0x50 then Inr (processSummaryMsg P c data)
               else if d0 = CHR 0x51 then processUpdMsg P c data
               else if d0 = CHR 0x54 then Inr (processTimeMsg P c data)
               else if d0 = CHR 0x52 then Inr (processRegUpdMsg P c data)
               else if d0 = CHR 0x46 then Inr (processFndMsg P c data)
               else if d0 = CHR 0x4e then Inr (processNewsMsg P c data)
               else if d0 = CHR 0x6E then Inr (process404Msg P c data)
               else if d0 = CHR 0x45 then Inr (processErrorMsg P c data)
               else Inr c)))"

section \<open>The reader\<close>

text \<open>
  The reader's environment. \<^verbatim>\<open>r.ReadLine()\<close> returns a line (or \<^verbatim>\<open>nil\<close>), the
  \<^verbatim>\<open>isPrefix\<close> flag and an error (\<^verbatim>\<open>nil\<close>, \<^verbatim>\<open>io.EOF\<close> or another error): \<open>ReadLine E k\<close>
  is what the call number \<open>k\<close> returns. \<open>QuitReady E k\<close> says whether a value can be
  received from \<^verbatim>\<open>c.Quit\<close> when the \<^verbatim>\<open>select\<close> runs for pass number \<open>k\<close> of the outer
  loop. Both are arbitrary: nothing is assumed about the peer or the caller.
\<close>

datatype go_error = EOF | OtherError string

type_synonym ReadLine_result = "bytes option \<times> bool \<times> go_error option"

record env =
  ReadLine :: "nat \<Rightarrow> ReadLine_result"
  QuitReady :: "nat \<Rightarrow> bool"

text \<open>
  The state of the reader's goroutine: the client, the number of \<^verbatim>\<open>ReadLine\<close> calls made,
  the number of passes of the outer loop made, the lines written with \<^verbatim>\<open>log.Println\<close>
  and the lines written to the backup sink.
\<close>

record ('sys, 'news, 'err, 'fnd, 'reg, 'tm, 'upd) reader =
  client :: "('sys, 'news, 'err, 'fnd, 'reg, 'tm, 'upd) IQC"
  calls :: nat
  polls :: nat
  logged :: "string list"
  backup :: "bytes list"

text \<open>
  Modelled from the spec: \<^verbatim>\<open>writeBackup\<close> is not in the source file. The spec says that,
  when the backup is enabled, every successfully read raw line is appended,
  CRLF-terminated, to a durable sink; the sink is the list \<open>backup\<close>.
\<close>

definition writeBackup ::
  "('sys, 'news, 'err, 'fnd, 'reg, 'tm, 'upd) reader \<Rightarrow> bytes \<Rightarrow>
   ('sys, 'news, 'err, 'fnd, 'reg, 'tm, 'upd) reader" where
  "writeBackup w bld = w\<lparr>backup := backup w @ [bld]\<rparr>"

text \<open>\<^verbatim>\<open>string(line)\<close>: the bytes of the slice; none for \<^verbatim>\<open>nil\<close>.\<close>

definition string_of :: "bytes option \<Rightarrow> string" where
  "string_of d = (case d of None \<Rightarrow> [] | Some bs \<Rightarrow> bs)"

text \<open>
  \<^verbatim>\<open>read\<close> loops for as long as the peer sends, so both of its loops take fuel: one unit
  for each pass. \<open>Running w\<close> is a loop that is still running in state \<open>w\<close> when the fuel
  is used up, \<open>Returned\<close> a loop that has ended, \<open>Panicked\<close> a panic of \<^verbatim>\<open>processReceiver\<close>,
  which ends the goroutine.
\<close>

datatype ('w, 'a) outcome = Running 'w | Returned 'a | Panicked panic

text \<open>
  The inner loop \<^verbatim>\<open>for err == nil && !isPrefix { ... }\<close>, entered with the result of the
  last \<^verbatim>\<open>ReadLine\<close> call. It ends with the state and the result that ended it.
\<close>

fun read_lines ::
  "nat \<Rightarrow> ('sys, 'news, 'err, 'fnd, 'reg, 'tm, 'upd) parsers \<Rightarrow> env \<Rightarrow>
   ('sys, 'news, 'err, 'fnd, 'reg, 'tm, 'upd) reader \<Rightarrow> ReadLine_result \<Rightarrow>
   (('sys, 'news, 'err, 'fnd, 'reg, 'tm, 'upd) reader,
    ('sys, 'news, 'err, 'fnd, 'reg, 'tm, 'upd) reader \<times> ReadLine_result) outcome" where
  "read_lines 0 P E w r = Running w"
| "read_lines (Suc n) P E w (line, isPrefix, err) =
     (if err = None \<and> \<not> isPrefix then
        (let w1 = (if CreateBackup (client w)
                   then writeBackup w (string_of line @ [CHR 0x0D, CHR 0x0A]) else w)
         in case processReceiver P (client w1) line of
              Inl e \<Rightarrow> Panicked e
            | Inr c' \<Rightarrow>
                read_lines n P E (w1\<lparr>client := c', calls := Suc (calls w1)\<rparr>)
                  (ReadLine E (calls w1)))
      else Returned (w, (line, isPrefix, err)))"

text \<open>
  The outer loop of \<^verbatim>\<open>read\<close>. The \<^verbatim>\<open>break\<close> of the \<^verbatim>\<open>Quit\<close> case leaves the \<^verbatim>\<open>select\<close>
  only, so the loop goes on to its next pass.
\<close>

fun read ::
  "nat \<Rightarrow> ('sys, 'news, 'err, 'fnd, 'reg, 'tm, 'upd) parsers \<Rightarrow> env \<Rightarrow>
   ('sys, 'news, 'err, 'fnd, 'reg, 'tm, 'upd) reader \<Rightarrow>
   (('sys, 'news, 'err, 'fnd, 'reg, 'tm, 'upd) reader,
    ('sys, 'news, 'err, 'fnd, 'reg, 'tm, 'upd) reader) outcome" where
  "read 0 P E w = Running w"
| "read (Suc n) P E w =
     (if QuitReady E (polls w) then
        read n P E (w\<lparr>logged := logged w @ [''Client quitting''],
                       client := (client w)\<lparr>Conn := Closed\<rparr>,
                       polls := Suc (polls w)\<rparr>)
      else
        (case read_lines n P E (w\<lparr>calls := Suc (calls w)\<rparr>) (ReadLine E (calls w)) of
           Running w' \<Rightarrow> Running w'
         | Panicked e \<Rightarrow> Panicked e
         | Returned (w', (line, isPrefix, err)) \<Rightarrow>
             (let w'' = (if isPrefix
                         then w'\<lparr>logged := logged w' @ [''buffer size to small'']\<rparr>
                         else w')
              in if err \<noteq> Some EOF
                 then Returned (w''\<lparr>logged := logged w'' @ [''Pipe closed exiting...''],
                                    client := (client w'')\<lparr>Conn := Closed\<rparr>\<rparr>)
                 else read n P E (w''\<lparr>polls := Suc (polls w'')\<rparr>))))"

section \<open>Request identifiers\<close>

text \<open>
  \<^verbatim>\<open>fmt.Sprintf("%d", n)\<close> for an \<^verbatim>\<open>int64\<close>: the decimal digits, most significant first,
  after a minus sign when \<open>n\<close> is negative.
\<close>

function decimal :: "nat \<Rightarrow> string" where
  "decimal n =
     (if n < 10 then [''0123456789'' ! n]
      else decimal (n div 10) @ [''0123456789'' ! (n mod 10)])"
  by pat_completeness auto
termination
  by (relation "measure (\<lambda>n. n)") auto

declare decimal.simps [simp del]

definition Sprintf_d :: "int \<Rightarrow> string" where
  "Sprintf_d i = (if i < 0 then CHR ''-'' # decimal (nat (- i)) else decimal (nat i))"

text \<open>
  The integer a decimal string denotes (\<^verbatim>\<open>strconv.ParseInt(s, 10, 64)\<close> on a well-formed
  string): how a caller reads the identifier back.
\<close>

definition digits_value :: "string \<Rightarrow> nat" where
  "digits_value s = foldl (\<lambda>acc ch. 10 * acc + (of_char ch - 48)) 0 s"

definition decimal_value :: "string \<Rightarrow> int" where
  "decimal_value s =
     (case s of
        [] \<Rightarrow> 0
      | ch # cs \<Rightarrow> if ch = CHR ''-'' then - int (digits_value cs) else int (digits_value s))"

text \<open>
  \<^verbatim>\<open>incr\<close>: \<^verbatim>\<open>atomic.AddInt64(&c.previousRequestId, 1)\<close> adds 1 to the \<^verbatim>\<open>int64\<close> (with
  wrap-around), stores the sum and returns it. The result is the returned string and
  the client.
\<close>

definition incr ::
  "('sys, 'news, 'err, 'fnd, 'reg, 'tm, 'upd) IQC \<Rightarrow>
   string \<times> ('sys, 'news, 'err, 'fnd, 'reg, 'tm, 'upd) IQC" where
  "incr c =
     (let n = previousRequestId c + 1;
          c1 = c\<lparr>previousRequestId := n\<rparr>;
          c2 = c1\<lparr>requestId := Sprintf_d (sint n)\<rparr>
      in (requestId c2, c2))"

section \<open>Option month letters\<close>

text \<open>
  \<^verbatim>\<open>t.Month()\<close> of a \<^verbatim>\<open>time.Time\<close> is one of the twelve constants \<^verbatim>\<open>time.January\<close> ...
  \<^verbatim>\<open>time.December\<close>, and \<^verbatim>\<open>Month.String()\<close> is its English name. A time is the fields
  \<^verbatim>\<open>time.Date\<close> builds it from.
\<close>

datatype Month = January | February | March | April | May | June | July | August
  | September | October | November | December

fun Month_String :: "Month \<Rightarrow> string" where
  "Month_String January = ''January''"
| "Month_String February = ''February''"
| "Month_String March = ''March''"
| "Month_String April = ''April''"
| "Month_String May = ''May''"
| "Month_String June = ''June''"
| "Month_String July = ''July''"
| "Month_String August = ''August''"
| "Month_String September = ''September''"
| "Month_String October = ''October''"
| "Month_String November = ''November''"
| "Month_String December = ''December''"

record time_Time =
  Year :: int
  Month :: Month
  Day :: nat
  Hour :: nat
  Minute :: nat
  Second :: nat
  Nanosecond :: nat
  Zone :: Location

text \<open>
  The \<^verbatim>\<open>switch\<close> of \<^verbatim>\<open>getCallChar\<close> on the month's name, with the \<^verbatim>\<open>return "A"\<close> after
  it as the last branch; likewise for \<^verbatim>\<open>getPutChar\<close>. The receiver is not used.
\<close>

definition getCallChar_switch :: "string \<Rightarrow> string" where
  "getCallChar_switch s =
     (if s = ''January'' then ''A''
      else if s = ''February'' then ''B''
      else if s = ''March'' then ''C''
      else if s = ''April'' then ''D''
      else if s = ''May'' then ''E''
      else if s = ''June'' then ''F''
      else if s = ''July'' then ''G''
      else if s = ''August'' then ''H''
      else if s = ''September'' then ''I''
      else if s = ''October'' then ''J''
      else if s = ''November'' then ''K''
      else if s = ''December'' then ''L''
      else ''A'')"

definition getCallChar :: "time_Time \<Rightarrow> string" where
  "getCallChar t = getCallChar_switch (Month_String (Month t))"

definition getPutChar_switch :: "string \<Rightarrow> string" where
  "getPutChar_switch s =
     (if s = ''January'' then ''M''
      else if s = ''February'' then ''N''
      else if s = ''March'' then ''O''
      else if s = ''April'' then ''P''
      else if s = ''May'' then ''Q''
      else if s = ''June'' then ''R''
      else if s = ''July'' then ''S''
      else if s = ''August'' then ''T''
      else if s = ''September'' then ''U''
      else if s = ''October'' then ''V''
      else if s = ''November'' then ''W''
      else if s = ''December'' then ''X''
      else ''M'')"

definition getPutChar :: "time_Time \<Rightarrow> string" where
  "getPutChar t = getPutChar_switch (Month_String (Month t))"

section \<open>Concrete inputs\<close>

text \<open>
  Parsers that keep what they are given, a client as \<^verbatim>\<open>Start\<close> leaves it (empty queues,
  an empty field map, an open connection), and the same client after the server has
  announced three field names.
\<close>

definition echo ::
  "(bytes, bytes, bool \<times> bytes \<times> int, bytes, bytes, bytes, string list) parsers" where
  "echo = \<lparr>SystemMessage_UnMarshall = (\<lambda>d loc. d),
           NewsMsg_UnMarshall = (\<lambda>d loc. d),
           ErrorMsg_UnMarshall = (\<lambda>flag d code. (flag, d, code)),
           FundamentalMsg_UnMarshall = (\<lambda>d loc. d),
           RegionalMsg_UnMarshall = (\<lambda>d loc. d),
           TimeMsg_UnMarshall = (\<lambda>d loc. d),
           UpdSummaryMsg_UnMarshall = (\<lambda>items fields loc. items)\<rparr>"

definition client0 ::
  "(bytes, bytes, bool \<times> bytes \<times> int, bytes, bytes, bytes, string list) IQC" where
  "client0 = \<lparr>System = [], News = [], Errors = [], Fundamental = [], Regional = [],
     Time = [], Updates = [], TimeZone = ''America/New_York'', TimeLoc = ''America/New_York'',
     CreateBackup = False, BackupFile = [], Conn = Open, DynFields = Map.empty,
     requestId = [], previousRequestId = 0\<rparr>"

definition client3 ::
  "(bytes, bytes, bool \<times> bytes \<times> int, bytes, bytes, bytes, string list) IQC" where
  "client3 = client0\<lparr>DynFields := [0 \<mapsto> ''Symbol'', 1 \<mapsto> ''Last'', 2 \<mapsto> ''Bid'']\<rparr>"

text \<open>
  A client whose request counter has reached the largest \<^verbatim>\<open>int64\<close>.
\<close>

definition client_max ::
  "(bytes, bytes, bool \<times> bytes \<times> int, bytes, bytes, bytes, string list) IQC" where
  "client_max = client0\<lparr>previousRequestId := 0x7FFFFFFFFFFFFFFF\<rparr>"

text \<open>
  A reader that has just been started; a peer whose lines are always longer than the
  buffer of the \<^verbatim>\<open>bufio.Reader\<close> (every \<^verbatim>\<open>ReadLine\<close> returns the first part of a line
  with \<^verbatim>\<open>isPrefix\<close> set and no error); a peer that sends the line \<^verbatim>\<open>Q,AAPL\<close> over and
  over; and a peer at end of stream on the first call whose connection is reset
  afterwards. No caller ever signals \<^verbatim>\<open>Quit\<close>.
\<close>

definition reader0 ::
  "(bytes, bytes, bool \<times> bytes \<times> int, bytes, bytes, bytes, string list) reader" where
  "reader0 = \<lparr>client = client0, calls = 0, polls = 0, logged = [], backup = []\<rparr>"

definition env_truncated :: env where
  "env_truncated = \<lparr>ReadLine = (\<lambda>k. (Some ''Q,AAPL,150.0'', True, None)),
                     QuitReady = (\<lambda>k. False)\<rparr>"

definition env_short_Q :: env where
  "env_short_Q = \<lparr>ReadLine = (\<lambda>k. (Some ''Q,AAPL'', False, None)), QuitReady = (\<lambda>k. False)\<rparr>"

definition env_eof_reset :: env where
  "env_eof_reset =
     \<lparr>ReadLine = (\<lambda>k. if k = 0 then (None, False, Some EOF)
                        else (None, False, Some (OtherError ''connection reset by peer''))),
      QuitReady = (\<lambda>k. False)\<rparr>"

text \<open>A time in March.\<close>

definition time_march :: time_Time where
  "time_march = \<lparr>Year = 2024, Month = March, Day = 15, Hour = 9, Minute = 30, Second = 0,
                  Nanosecond = 0, Zone = ''America/New_York''\<rparr>"

section \<open>Splitting and the field loop\<close>

lemma Split_not_Nil: "Split s sep \<noteq> []"
  by (induction s) (auto split: list.splits)

lemma length_Split: "length (Split s sep) = Suc (count_list s sep)"
  by (induction s) (auto split: list.splits simp: Split_not_Nil)

lemma Split_fields: "x \<in> set (Split s sep) \<Longrightarrow> sep \<notin> set x"
  by (induction s arbitrary: x) (auto split: list.splits if_splits)

lemma Split_no_sep: "sep \<notin> set s \<Longrightarrow> Split s sep = [s]"
  by (induction s) auto

lemma length_Split_le: "length (Split s sep) \<le> Suc (length s)"
  by (induction s) (auto split: list.splits)

lemma at_index_Split_0: "at_index (Split s sep) 0 = Inr (hd (Split s sep))"
  using Split_not_Nil [of s sep] by (cases "Split s sep") (auto simp: at_index_def)

text \<open>
  The loop started at \<open>i\<close> writes the entries \<open>i - 1\<close> up to \<open>len(pfx) - 2\<close> and leaves
  every other entry of the map as it was.
\<close>

lemma fieldNamesLoop_apply:
  "fieldNamesLoop pfx i m k =
     (if int i - 1 \<le> k \<and> k < int (length pfx) - 1 then Some (pfx ! nat (k + 1)) else m k)"
proof (induction pfx i m rule: fieldNamesLoop.induct)
  case (1 pfx i m)
  show ?case
  proof (cases "i < length pfx")
    case True
    have "fieldNamesLoop pfx i m k = fieldNamesLoop pfx (i + 1) (m(int i - 1 \<mapsto> pfx ! i)) k"
      using True by (subst fieldNamesLoop.simps) simp
    also have "\<dots> = (if int (i + 1) - 1 \<le> k \<and> k < int (length pfx) - 1
                      then Some (pfx ! nat (k + 1)) else (m(int i - 1 \<mapsto> pfx ! i)) k)"
      by (rule "1.IH" [OF True])
    also have "\<dots> = (if int i - 1 \<le> k \<and> k < int (length pfx) - 1
                      then Some (pfx ! nat (k + 1)) else m k)"
      using True by auto
    finally show ?thesis .
  next
    case False
    then show ?thesis by (subst fieldNamesLoop.simps) auto
  qed
qed

lemma fieldNamesLoop_names:
  "fieldNamesLoop (tok # names) (Suc 0) m =
     (\<lambda>i. if 0 \<le> i \<and> i < int (length names) then Some (names ! nat i) else m i)"
  by (rule ext) (auto simp: fieldNamesLoop_apply nat_add_distrib)

lemma fieldNamesLoop_Split:
  "fieldNamesLoop (Split s sep) (Suc 0) m =
     (\<lambda>i. if 0 \<le> i \<and> i < int (length (tl (Split s sep)))
          then Some (tl (Split s sep) ! nat i) else m i)"
  using Split_not_Nil [of s sep] fieldNamesLoop_names [of "hd (Split s sep)" "tl (Split s sep)" m]
  by simp

section \<open>Field-definition control records\<close>

text \<open>
  C1, as the code has it. For the payload of an S record whose first comma field is
  \<^verbatim>\<open>UPDATE FIELDNAMES\<close> or \<^verbatim>\<open>CURRENT UPDATE FIELDNAMES\<close>, followed by the N name tokens
  \<open>names\<close>: \<^verbatim>\<open>processSysMsg\<close> does not panic, \<^verbatim>\<open>DynFields\<close> afterwards maps every index i
  in [0, N) to token i and every other index to what it mapped to before (an entry at an
  index >= N stays), no queue receives a message and no other field changes.
\<close>

theorem processSysMsg_fieldnames_overwrite:
  assumes "Split d CHR '','' = tok # names"
      and "tok = ''UPDATE FIELDNAMES'' \<or> tok = ''CURRENT UPDATE FIELDNAMES''"
  shows "processSysMsg P c d =
     Inr (c\<lparr>DynFields := (\<lambda>i. if 0 \<le> i \<and> i < int (length names)
                                then Some (names ! nat i) else DynFields c i)\<rparr>)"
  using assms by (auto simp: processSysMsg_def at_index_def fieldNamesLoop_names)

theorem processSysMsg_fieldnames_overwrite_witness:
  "Split ''CURRENT UPDATE FIELDNAMES,Symbol,Ask'' CHR '','' =
     ''CURRENT UPDATE FIELDNAMES'' # [''Symbol'', ''Ask'']
   \<and> processSysMsg echo client3 ''CURRENT UPDATE FIELDNAMES,Symbol,Ask'' =
     Inr (client3\<lparr>DynFields := [0 \<mapsto> ''Symbol'', 1 \<mapsto> ''Ask'', 2 \<mapsto> ''Bid'']\<rparr>)"
  using processSysMsg_fieldnames_overwrite [of "''CURRENT UPDATE FIELDNAMES,Symbol,Ask''"
      "''CURRENT UPDATE FIELDNAMES''" "[''Symbol'', ''Ask'']" echo client3]
  by (simp add: client3_def fun_eq_iff)

text \<open>
  C1 as the claim states it fails: with three names in the directory, a control record
  that carries one name (N = 1) leaves the indices 1 and 2 resolvable.
\<close>

theorem processSysMsg_fieldnames_counterexample:
  "DynFields client3 1 = Some ''Last''
   \<and> processSysMsg echo client3 ''UPDATE FIELDNAMES,Ask'' =
       Inr (client3\<lparr>DynFields := [0 \<mapsto> ''Ask'', 1 \<mapsto> ''Last'', 2 \<mapsto> ''Bid'']\<rparr>)
   \<and> [0 \<mapsto> ''Ask'', 1 \<mapsto> ''Last'', 2 \<mapsto> ''Bid''] (1::int) = Some ''Last''"
  by (simp add: processSysMsg_def at_index_def fieldNamesLoop.simps client3_def fun_eq_iff)

section \<open>Dispatch of one record\<close>

text \<open>
  C6. For an input that is \<^verbatim>\<open>nil\<close> or shorter than 3 bytes, \<^verbatim>\<open>processReceiver\<close> returns
  with the client as it was: no queue receives a message, and neither \<^verbatim>\<open>DynFields\<close> nor
  any other field changes.
\<close>

theorem processReceiver_short:
  "d = None \<or> len d < 3 \<Longrightarrow> processReceiver P c d = Inr c"
  by (simp add: processReceiver_def)

theorem processReceiver_short_witness:
  "len (Some ''S,'') < 3 \<and> processReceiver echo client3 (Some ''S,'') = Inr client3
   \<and> processReceiver echo client3 None = Inr client3"
  using processReceiver_short [of "Some ''S,''" echo client3]
    processReceiver_short [of None echo client3]
  by (simp add: len_def)

text \<open>
  C3 fails on the code. The record \<^verbatim>\<open>Q,AAPL\<close> has 6 bytes and a payload of one comma
  field; \<^verbatim>\<open>processUpdMsg\<close> reads \<^verbatim>\<open>items[2]\<close> without a check of \<^verbatim>\<open>len(items)\<close> and
  panics, with any parsers and any client. A reader that receives the line panics in
  its first pass, from any state: the read loop ends.
\<close>

theorem processReceiver_Q_short_panics:
  "processReceiver P c (Some ''Q,AAPL'') = Inl (IndexOutOfRange 2 1)
   \<and> read (Suc (Suc n)) P env_short_Q w = Panicked (IndexOutOfRange 2 1)"
  by (simp add: processReceiver_def len_def at_index_def processUpdMsg_def env_short_Q_def
      writeBackup_def)

text \<open>
  C4. For a Q record (byte 0 is \<^verbatim>\<open>Q\<close>, byte 1 any separator) whose payload has the comma
  field \<^verbatim>\<open>Not Found\<close> at position 2, \<^verbatim>\<open>processReceiver\<close> sends on \<^verbatim>\<open>Errors\<close> the one
  \<^verbatim>\<open>ErrorMsg\<close> that \<^verbatim>\<open>UnMarshall(true, items[0], 404)\<close> builds, and changes nothing else:
  \<^verbatim>\<open>Updates\<close> receives no message.
\<close>

theorem processReceiver_Q_NotFound:
  assumes "d = CHR 0x51 # sep # payload"
      and "Split payload CHR '','' = items"
      and "2 < length items"
      and "items ! 2 = ''Not Found''"
  shows "processReceiver P c (Some d) =
           Inr (c\<lparr>Errors := Errors c @ [ErrorMsg_UnMarshall P True (items ! 0) 404]\<rparr>)"
proof -
  have "length items \<le> Suc (length payload)"
    using assms(2) length_Split_le [of payload "CHR '',''"] by simp
  with assms(3) have "2 \<le> length payload" by simp
  with assms(1) have long: "\<not> len (Some d) < 3" by (auto simp: len_def)
  have upd: "processUpdMsg P c payload = Inr (process404Msg P c (items ! 0))"
    using assms(2-4) by (auto simp: processUpdMsg_def at_index_def)
  show ?thesis
    using long assms(1) upd
    by (simp add: processReceiver_def at_index_def process404Msg_def)
qed

theorem processReceiver_Q_NotFound_witness:
  "Split ''MSFQQ,x,Not Found'' CHR '','' = [''MSFQQ'', ''x'', ''Not Found'']
   \<and> processReceiver echo client0 (Some ''Q,MSFQQ,x,Not Found'') =
       Inr (client0\<lparr>Errors := [(True, ''MSFQQ'', 404)]\<rparr>)"
  using processReceiver_Q_NotFound [of "''Q,MSFQQ,x,Not Found''" "CHR '',''"
      "''MSFQQ,x,Not Found''" "[''MSFQQ'', ''x'', ''Not Found'']" echo client0]
  by (simp add: echo_def client0_def)

text \<open>
  C7, as the code has it. For a record of at least 3 bytes: when byte 0 is \<^verbatim>\<open>n\<close>,
  \<^verbatim>\<open>processReceiver\<close> sends on \<^verbatim>\<open>Errors\<close> the one \<^verbatim>\<open>ErrorMsg\<close> that
  \<^verbatim>\<open>UnMarshall(true, payload, 404)\<close> builds; when byte 0 is \<^verbatim>\<open>E\<close>, the one that
  \<^verbatim>\<open>UnMarshall(false, payload, 500)\<close> builds; the payload is the bytes from offset 2 on,
  and nothing else changes, so no other queue receives a message.
\<close>

theorem processReceiver_n_E:
  assumes "3 \<le> length d"
  shows "(d ! 0 = CHR ''n'' \<longrightarrow> processReceiver P c (Some d) =
            Inr (c\<lparr>Errors := Errors c @ [ErrorMsg_UnMarshall P True (drop 2 d) 404]\<rparr>))
       \<and> (d ! 0 = CHR ''E'' \<longrightarrow> processReceiver P c (Some d) =
            Inr (c\<lparr>Errors := Errors c @ [ErrorMsg_UnMarshall P False (drop 2 d) 500]\<rparr>))"
  using assms
  by (auto simp: processReceiver_def len_def at_index_def process404Msg_def processErrorMsg_def)

theorem processReceiver_n_E_witness:
  "processReceiver echo client0 (Some ''n,MSFQQ'') =
       Inr (client0\<lparr>Errors := [(True, ''MSFQQ'', 404)]\<rparr>)
   \<and> processReceiver echo client0 (Some ''E,Bad request'') =
       Inr (client0\<lparr>Errors := [(False, ''Bad request'', 500)]\<rparr>)"
  using processReceiver_n_E [of "''n,MSFQQ''" echo client0]
    processReceiver_n_E [of "''E,Bad request''" echo client0]
  by (simp add: echo_def client0_def)

text \<open>
  C7 as the claim states it fails for an n record with no payload: the record \<^verbatim>\<open>n,\<close> has
  2 bytes, the guard of \<^verbatim>\<open>processReceiver\<close> drops it, and \<^verbatim>\<open>Errors\<close> stays empty.
\<close>

theorem processReceiver_n_short_counterexample:
  "processReceiver echo client0 (Some ''n,'') = Inr client0 \<and> Errors client0 = []"
  by (simp add: processReceiver_def len_def client0_def)

text \<open>
  C8, as the code has it. For a record \<open>d\<close> of at least 3 bytes, with the payload
  \<open>data\<close> (the bytes from offset 2 on) and its comma fields \<open>items\<close>, and, when byte 0 is
  \<^verbatim>\<open>Q\<close>, at least 3 comma fields: \<^verbatim>\<open>processReceiver\<close> returns, and the client afterwards
  is the client before but for
  \<^item> S and a control record: \<^verbatim>\<open>DynFields\<close>, overwritten at the indices of the names; no
    queue receives a message;
  \<^item> S otherwise: one message more on \<^verbatim>\<open>System\<close>, built from \<open>data\<close>;
  \<^item> P: one message more on \<^verbatim>\<open>Updates\<close>, built from \<open>items\<close>;
  \<^item> Q with \<^verbatim>\<open>Not Found\<close> at position 2: one message more on \<^verbatim>\<open>Errors\<close>, built from
    \<open>items[0]\<close> with flag true and code 404;
  \<^item> Q otherwise: one message more on \<^verbatim>\<open>Updates\<close>, built from \<open>items\<close>;
  \<^item> T, R, F, N: one message more on \<^verbatim>\<open>Time\<close>, \<^verbatim>\<open>Regional\<close>, \<^verbatim>\<open>Fundamental\<close>, \<^verbatim>\<open>News\<close>,
    built from \<open>data\<close>;
  \<^item> n and E: one message more on \<^verbatim>\<open>Errors\<close>, built from \<open>data\<close> with flag true and
    code 404, and flag false and code 500;
  \<^item> any other byte 0: nothing.
\<close>

theorem processReceiver_dispatch:
  assumes "3 \<le> length d"
      and "d ! 0 = CHR ''Q'' \<Longrightarrow> 3 \<le> length (Split (drop 2 d) CHR '','')"
  shows "processReceiver P c (Some d) = Inr
    (let m = d ! 0; data = drop 2 d; items = Split data CHR '','' in
     if m = CHR ''S'' then
       (if hd items = ''UPDATE FIELDNAMES'' \<or> hd items = ''CURRENT UPDATE FIELDNAMES''
        then c\<lparr>DynFields := (\<lambda>i. if 0 \<le> i \<and> i < int (length (tl items))
                                  then Some (tl items ! nat i) else DynFields c i)\<rparr>
        else c\<lparr>System := System c @ [SystemMessage_UnMarshall P data (TimeLoc c)]\<rparr>)
     else if m = CHR ''P'' then
       c\<lparr>Updates := Updates c @ [UpdSummaryMsg_UnMarshall P items (DynFields c) (TimeLoc c)]\<rparr>
     else if m = CHR ''Q'' then
       (if items ! 2 = ''Not Found''
        then c\<lparr>Errors := Errors c @ [ErrorMsg_UnMarshall P True (items ! 0) 404]\<rparr>
        else c\<lparr>Updates := Updates c @
                 [UpdSummaryMsg_UnMarshall P items (DynFields c) (TimeLoc c)]\<rparr>)
     else if m = CHR ''T'' then c\<lparr>Time := Time c @ [TimeMsg_UnMarshall P data (TimeLoc c)]\<rparr>
     else if m = CHR ''R'' then
       c\<lparr>Regional := Regional c @ [RegionalMsg_UnMarshall P data (TimeLoc c)]\<rparr>
     else if m = CHR ''F'' then
       c\<lparr>Fundamental := Fundamental c @ [FundamentalMsg_UnMarshall P data (TimeLoc c)]\<rparr>
     else if m = CHR ''N'' then c\<lparr>News := News c @ [NewsMsg_UnMarshall P data (TimeLoc c)]\<rparr>
     else if m = CHR ''n'' then
       c\<lparr>Errors := Errors c @ [ErrorMsg_UnMarshall P True data 404]\<rparr>
     else if m = CHR ''E'' then
       c\<lparr>Errors := Errors c @ [ErrorMsg_UnMarshall P False data 500]\<rparr>
     else c)"
proof -
  have long: "\<not> len (Some d) < 3" using assms(1) by (simp add: len_def)
  have d0: "at_index d 0 = Inr (d ! 0)" using assms(1) by (auto simp: at_index_def)
  have sys: "processSysMsg P c (drop 2 d) = Inr
     (let items = Split (drop 2 d) CHR '','' in
       if hd items = ''UPDATE FIELDNAMES'' \<or> hd items = ''CURRENT UPDATE FIELDNAMES''
        then c\<lparr>DynFields := (\<lambda>i. if 0 \<le> i \<and> i < int (length (tl items))
                                  then Some (tl items ! nat i) else DynFields c i)\<rparr>
        else c\<lparr>System := System c @ [SystemMessage_UnMarshall P (drop 2 d) (TimeLoc c)]\<rparr>)"
    by (simp add: processSysMsg_def at_index_Split_0 fieldNamesLoop_Split Let_def)
  have upd: "d ! 0 = CHR ''Q'' \<Longrightarrow> processUpdMsg P c (drop 2 d) = Inr
     (let items = Split (drop 2 d) CHR '','' in
       if items ! 2 = ''Not Found''
        then c\<lparr>Errors := Errors c @ [ErrorMsg_UnMarshall P True (items ! 0) 404]\<rparr>
        else c\<lparr>Updates := Updates c @
                 [UpdSummaryMsg_UnMarshall P items (DynFields c) (TimeLoc c)]\<rparr>)"
    using assms(2) by (auto simp: processUpdMsg_def at_index_def process404Msg_def Let_def)
  show ?thesis
    using long d0 sys upd
    by (simp add: processReceiver_def Let_def processSummaryMsg_def processTimeMsg_def
        processRegUpdMsg_def processFndMsg_def processNewsMsg_def process404Msg_def
        processErrorMsg_def)
qed

theorem processReceiver_dispatch_witness:
  "3 \<le> length ''Q,AAPL,150.00,149.98'' 
   \<and> 3 \<le> length (Split (drop 2 ''Q,AAPL,150.00,149.98'') CHR '','')
   \<and> processReceiver echo client0 (Some ''Q,AAPL,150.00,149.98'') =
       Inr (client0\<lparr>Updates := [[''AAPL'', ''150.00'', ''149.98'']]\<rparr>)
   \<and> processReceiver echo client0 (Some ''T,20240102 09:30:00'') =
       Inr (client0\<lparr>Time := [''20240102 09:30:00'']\<rparr>)
   \<and> processReceiver echo client0 (Some ''X,garbage'') = Inr client0"
  using processReceiver_dispatch [of "''Q,AAPL,150.00,149.98''" echo client0]
    processReceiver_dispatch [of "''T,20240102 09:30:00''" echo client0]
    processReceiver_dispatch [of "''X,garbage''" echo client0]
  by (simp add: echo_def client0_def)

text \<open>
  C8 as the claim states it fails for a Q record with \<^verbatim>\<open>Not Found\<close> at position 2: the
  queue of the Q marker, \<^verbatim>\<open>Updates\<close>, receives nothing, and the message sent on \<^verbatim>\<open>Errors\<close>
  is built from comma field 0, not from the bytes from offset 2 on.
\<close>

theorem processReceiver_dispatch_counterexample:
  "processReceiver echo client0 (Some ''Q,MSFQQ,x,Not Found'') =
       Inr (client0\<lparr>Errors := [(True, ''MSFQQ'', 404)]\<rparr>)
   \<and> Updates (client0\<lparr>Errors := [(True, ''MSFQQ'', 404)]\<rparr>) = Updates client0
   \<and> drop 2 ''Q,MSFQQ,x,Not Found'' = ''MSFQQ,x,Not Found''"
  by (simp add: processReceiver_def len_def at_index_def processUpdMsg_def process404Msg_def
      echo_def client0_def)

section \<open>The read loop\<close>

text \<open>
  C2 fails on the code. When \<^verbatim>\<open>ReadLine\<close> returns the first part of an oversized line
  (\<^verbatim>\<open>isPrefix\<close> true, \<^verbatim>\<open>err\<close> nil), the inner loop is not entered, so the part is not handed
  to \<^verbatim>\<open>processReceiver\<close>, and \<^verbatim>\<open>buffer size to small\<close> is logged; but the next test,
  \<^verbatim>\<open>err != io.EOF\<close>, holds for the nil error, so the reader logs
  \<^verbatim>\<open>Pipe closed exiting...\<close>, closes the connection and returns, in its first pass, with
  any parsers and from any state.
\<close>

theorem read_truncated_returns:
  "read (Suc (Suc n)) P env_truncated w =
     Returned (w\<lparr>calls := Suc (calls w),
                  logged := logged w @ [''buffer size to small'', ''Pipe closed exiting...''],
                  client := (client w)\<lparr>Conn := Closed\<rparr>\<rparr>)"
  by (simp add: env_truncated_def)

text \<open>Dispatch and the inner loop leave the connection as it is.\<close>

lemma processReceiver_Conn:
  "processReceiver P c d = Inr c' \<Longrightarrow> Conn c' = Conn c"
  by (auto simp: processReceiver_def processSysMsg_def processSummaryMsg_def processUpdMsg_def
      processTimeMsg_def processRegUpdMsg_def processFndMsg_def processNewsMsg_def
      process404Msg_def processErrorMsg_def Let_def
      split: option.splits sum.splits if_splits)

lemma read_lines_Conn:
  "read_lines n P E w r = Returned (w', r') \<Longrightarrow> Conn (client w') = Conn (client w)"
proof (induction n P E w r rule: read_lines.induct)
  case (1 P E w r)
  then show ?case by simp
next
  case (2 n P E w line isPrefix err)
  show ?case
  proof (cases "err = None \<and> \<not> isPrefix")
    case False
    with "2.prems" show ?thesis by auto
  next
    case True
    define w1 where "w1 = (if CreateBackup (client w)
                   then writeBackup w (string_of line @ [CHR 0x0D, CHR 0x0A]) else w)"
    have cw1: "Conn (client w1) = Conn (client w)"
      by (simp add: w1_def writeBackup_def)
    from "2.prems" True obtain c' where
      pr: "processReceiver P (client w1) line = Inr c'" and
      rec: "read_lines n P E (w1\<lparr>client := c', calls := Suc (calls w1)\<rparr>)
              (ReadLine E (calls w1)) = Returned (w', r')"
      by (auto simp: w1_def Let_def split: sum.splits)
    have "Conn (client w') = Conn (client (w1\<lparr>client := c', calls := Suc (calls w1)\<rparr>))"
      using "2.IH" [OF True w1_def pr rec] .
    then show ?thesis
      using processReceiver_Conn [OF pr] cw1 by simp
  qed
qed

text \<open>The inner loop ends on a result with an error or with \<^verbatim>\<open>isPrefix\<close> set, on no other.\<close>

lemma read_lines_ends:
  "read_lines n P E w r = Returned (w', (line, isPrefix, err)) \<Longrightarrow> err \<noteq> None \<or> isPrefix"
proof (induction n P E w r rule: read_lines.induct)
  case (1 P E w r)
  then show ?case by simp
next
  case (2 n P E w line0 isPrefix0 err0)
  show ?case
  proof (cases "err0 = None \<and> \<not> isPrefix0")
    case False
    with "2.prems" show ?thesis by auto
  next
    case True
    define w1 where "w1 = (if CreateBackup (client w)
                   then writeBackup w (string_of line0 @ [CHR 0x0D, CHR 0x0A]) else w)"
    from "2.prems" True obtain c' where
      pr: "processReceiver P (client w1) line0 = Inr c'" and
      rec: "read_lines n P E (w1\<lparr>client := c', calls := Suc (calls w1)\<rparr>)
              (ReadLine E (calls w1)) = Returned (w', (line, isPrefix, err))"
      by (auto simp: w1_def Let_def split: sum.splits)
    show ?thesis using "2.IH" [OF True w1_def pr rec] .
  qed
qed

text \<open>
  C5. Take a pass of the outer loop in which no \<^verbatim>\<open>Quit\<close> value is ready and whose inner
  loop, after any number of complete lines, ends on a \<^verbatim>\<open>ReadLine\<close> result with the read
  error \<open>e\<close>, in state \<open>w''\<close> (after the log line of a set \<^verbatim>\<open>isPrefix\<close>). The pass has not
  touched the connection. When \<open>e\<close> is \<^verbatim>\<open>io.EOF\<close> the reader neither closes the connection
  nor returns: it goes on to the next pass of the outer loop from \<open>w''\<close>, which reads
  again. When \<open>e\<close> is any other error the reader logs, closes the connection and returns.
\<close>

theorem read_EOF_continues:
  assumes "\<not> QuitReady E (polls w)"
      and "read_lines n P E (w\<lparr>calls := Suc (calls w)\<rparr>) (ReadLine E (calls w)) =
             Returned (w', (line, isPrefix, Some e))"
      and "w'' = (if isPrefix then w'\<lparr>logged := logged w' @ [''buffer size to small'']\<rparr>
                  else w')"
  shows "Conn (client w'') = Conn (client w)
       \<and> (e = EOF \<longrightarrow> read (Suc n) P E w = read n P E (w''\<lparr>polls := Suc (polls w'')\<rparr>))
       \<and> (e \<noteq> EOF \<longrightarrow> read (Suc n) P E w =
             Returned (w''\<lparr>logged := logged w'' @ [''Pipe closed exiting...''],
                          client := (client w'')\<lparr>Conn := Closed\<rparr>\<rparr>))"
  using assms read_lines_Conn [OF assms(2)] by simp

theorem read_EOF_continues_witness:
  "\<not> QuitReady env_eof_reset (polls reader0)
   \<and> read_lines (Suc 0) echo env_eof_reset (reader0\<lparr>calls := Suc (calls reader0)\<rparr>)
       (ReadLine env_eof_reset (calls reader0)) =
       Returned (reader0\<lparr>calls := 1\<rparr>, (None, False, Some EOF))
   \<and> read (Suc (Suc 0)) echo env_eof_reset reader0 =
       read (Suc 0) echo env_eof_reset (reader0\<lparr>calls := 1, polls := 1\<rparr>)
   \<and> read_lines (Suc 0) echo env_eof_reset (reader0\<lparr>calls := 2, polls := 1\<rparr>)
       (ReadLine env_eof_reset 1) =
       Returned (reader0\<lparr>calls := 2, polls := 1\<rparr>,
                 (None, False, Some (OtherError ''connection reset by peer'')))
   \<and> read (Suc (Suc 0)) echo env_eof_reset (reader0\<lparr>calls := 1, polls := 1\<rparr>) =
       Returned (reader0\<lparr>calls := 2, polls := 1, logged := [''Pipe closed exiting...''],
                   client := client0\<lparr>Conn := Closed\<rparr>\<rparr>)"
  using read_EOF_continues [of env_eof_reset reader0 "Suc 0" echo "reader0\<lparr>calls := 1\<rparr>"
      None False EOF "reader0\<lparr>calls := 1\<rparr>"]
    read_EOF_continues [of env_eof_reset "reader0\<lparr>calls := 1, polls := 1\<rparr>" "Suc 0" echo
      "reader0\<lparr>calls := 2, polls := 1\<rparr>" None False
      "OtherError ''connection reset by peer''" "reader0\<lparr>calls := 2, polls := 1\<rparr>"]
  by (simp add: env_eof_reset_def reader0_def)

text \<open>
  At end of stream for good, with no \<^verbatim>\<open>Quit\<close> signal, the reader spins: whatever the
  fuel, it is still running when the fuel is used up, and the client is as it was (the
  connection is not closed).
\<close>

lemma read_EOF_forever:
  assumes "\<forall>k \<ge> calls w. ReadLine E k = (None, False, Some EOF)"
      and "\<forall>k \<ge> polls w. \<not> QuitReady E k"
  shows "\<exists>w'. read n P E w = Running w' \<and> client w' = client w"
  using assms
proof (induction n arbitrary: w)
  case 0
  then show ?case by simp
next
  case (Suc n)
  have nq: "\<not> QuitReady E (polls w)" using Suc.prems(2) by simp
  have rl: "ReadLine E (calls w) = (None, False, Some EOF)" using Suc.prems(1) by simp
  show ?case
  proof (cases n)
    case 0
    then show ?thesis using nq rl by simp
  next
    case (Suc m)
    let ?w = "w\<lparr>calls := Suc (calls w), polls := Suc (polls w)\<rparr>"
    have step: "read (Suc n) P E w = read n P E ?w"
      using nq rl Suc by simp
    have "\<exists>w'. read n P E ?w = Running w' \<and> client w' = client ?w"
      using Suc.prems by (intro Suc.IH) auto
    then show ?thesis using step by simp
  qed
qed

section \<open>The request counter\<close>

lemma digit_value: "k < 10 \<Longrightarrow> (of_char (''0123456789'' ! k) :: nat) - 48 = k"
  by (auto simp: less_Suc_eq eval_nat_numeral)

lemma digit_not_minus: "k < 10 \<Longrightarrow> ''0123456789'' ! k \<noteq> CHR ''-''"
  by (auto simp: less_Suc_eq eval_nat_numeral)

lemma digits_value_snoc:
  "digits_value (s @ [ch]) = 10 * digits_value s + (of_char ch - 48)"
  by (simp add: digits_value_def)

lemma digits_value_decimal: "digits_value (decimal n) = n"
proof (induction n rule: decimal.induct)
  case (1 n)
  show ?case
  proof (cases "n < 10")
    case True
    then show ?thesis
      by (subst decimal.simps) (simp add: digits_value_def digit_value)
  next
    case False
    have "n mod 10 < 10" by simp
    then have d: "(of_char (''0123456789'' ! (n mod 10)) :: nat) - 48 = n mod 10"
      by (rule digit_value)
    have "digits_value (decimal n) =
            10 * digits_value (decimal (n div 10)) + (of_char (''0123456789'' ! (n mod 10)) - 48)"
      using False by (subst decimal.simps) (simp add: digits_value_snoc)
    also have "\<dots> = 10 * (n div 10) + n mod 10"
      using "1.IH" [OF False] d by simp
    finally show ?thesis by simp
  qed
qed

lemma decimal_hd: "decimal n \<noteq> [] \<and> hd (decimal n) \<noteq> CHR ''-''"
proof (induction n rule: decimal.induct)
  case (1 n)
  show ?case
  proof (cases "n < 10")
    case True
    then show ?thesis
      by (subst (1 2) decimal.simps) (simp add: digit_not_minus)
  next
    case False
    then show ?thesis
      using "1.IH" [OF False] by (subst (1 2) decimal.simps) simp
  qed
qed

text \<open>Reading back what \<^verbatim>\<open>Sprintf("%d", i)\<close> wrote gives \<open>i\<close>.\<close>

lemma decimal_value_Sprintf_d: "decimal_value (Sprintf_d i) = i"
proof (cases "i < 0")
  case True
  then show ?thesis
    by (simp add: decimal_value_def Sprintf_d_def digits_value_decimal)
next
  case False
  obtain ch cs where dc: "decimal (nat i) = ch # cs" and "ch \<noteq> CHR ''-''"
    using decimal_hd [of "nat i"] by (cases "decimal (nat i)") auto
  then have "decimal_value (decimal (nat i)) = int (digits_value (decimal (nat i)))"
    by (simp add: decimal_value_def)
  with False show ?thesis
    by (simp add: Sprintf_d_def digits_value_decimal)
qed

lemma sint_succ:
  fixes x :: "64 word"
  assumes "sint x < 2 ^ 63 - 1"
  shows "sint (x + 1) = sint x + 1"
proof -
  have lo: "- (2 ^ 63) \<le> sint x" using sint_ge [of x] by simp
  have "sint (x + 1) = signed_take_bit 63 (sint x + 1)"
    by (simp add: sint_word_ariths)
  also have "\<dots> = sint x + 1"
    using lo assms by (intro signed_take_bit_int_eq_self) auto
  finally show ?thesis .
qed

text \<open>
  C9, as the code has it. A call of \<^verbatim>\<open>incr\<close> sets \<^verbatim>\<open>previousRequestId\<close> to its prior value
  plus one in \<^verbatim>\<open>int64\<close> arithmetic, sets \<^verbatim>\<open>requestId\<close> to the decimal string of the new
  value, returns that string and changes nothing else; the string denotes the new
  value. Whenever the prior value is below the largest \<^verbatim>\<open>int64\<close>, the new value and the
  integer returned are the prior value plus one, so they are greater than the prior
  value and than what the call before returned.
\<close>

theorem incr_next:
  "incr c = (Sprintf_d (sint (previousRequestId c + 1)),
             c\<lparr>previousRequestId := previousRequestId c + 1,
               requestId := Sprintf_d (sint (previousRequestId c + 1))\<rparr>)
   \<and> decimal_value (fst (incr c)) = sint (previousRequestId (snd (incr c)))
   \<and> (sint (previousRequestId c) < 2 ^ 63 - 1 \<longrightarrow>
        sint (previousRequestId (snd (incr c))) = sint (previousRequestId c) + 1
        \<and> decimal_value (fst (incr c)) = sint (previousRequestId c) + 1)"
  by (simp add: incr_def Let_def decimal_value_Sprintf_d sint_succ)

theorem incr_next_witness:
  "sint (previousRequestId client0) < 2 ^ 63 - 1
   \<and> incr client0 = (''1'', client0\<lparr>previousRequestId := 1, requestId := ''1''\<rparr>)
   \<and> decimal_value (fst (incr client0)) = 1"
  using incr_next [of client0]
  by (simp add: client0_def Sprintf_d_def decimal.simps decimal_value_def digits_value_def)

text \<open>
  C9 as the claim states it fails for the client whose counter is the largest \<^verbatim>\<open>int64\<close>:
  the sum wraps around, and the call returns the smallest \<^verbatim>\<open>int64\<close>, which is less than
  the prior value.
\<close>

theorem incr_wraps_counterexample:
  "sint (previousRequestId client_max) = 9223372036854775807
   \<and> fst (incr client_max) = ''-9223372036854775808''
   \<and> sint (previousRequestId (snd (incr client_max))) = - 9223372036854775808"
  by (simp add: incr_def client_max_def client0_def Sprintf_d_def decimal.simps)

section \<open>Month letters\<close>

text \<open>
  C10. For every time \<open>t\<close>, \<^verbatim>\<open>getCallChar\<close> and \<^verbatim>\<open>getPutChar\<close> return one letter that
  depends on the month of \<open>t\<close> only: A to L for the calls and M to X for the puts, from
  January to December. The put letter is 12 places after the call letter. A and M are
  returned for January and for no other month: the branch after the \<^verbatim>\<open>switch\<close>, which
  returns A and M for every string \<open>s\<close> that is not the name of a month, is never
  reached, since the \<^verbatim>\<open>switch\<close> is on the name of a month.
\<close>

theorem month_letters:
  "getCallChar t = (case Month t of
       January \<Rightarrow> ''A'' | February \<Rightarrow> ''B'' | March \<Rightarrow> ''C'' | April \<Rightarrow> ''D''
     | May \<Rightarrow> ''E'' | June \<Rightarrow> ''F'' | July \<Rightarrow> ''G'' | August \<Rightarrow> ''H''
     | September \<Rightarrow> ''I'' | October \<Rightarrow> ''J'' | November \<Rightarrow> ''K'' | December \<Rightarrow> ''L'')
   \<and> getPutChar t = (case Month t of
       January \<Rightarrow> ''M'' | February \<Rightarrow> ''N'' | March \<Rightarrow> ''O'' | April \<Rightarrow> ''P''
     | May \<Rightarrow> ''Q'' | June \<Rightarrow> ''R'' | July \<Rightarrow> ''S'' | August \<Rightarrow> ''T''
     | September \<Rightarrow> ''U'' | October \<Rightarrow> ''V'' | November \<Rightarrow> ''W'' | December \<Rightarrow> ''X'')
   \<and> (\<exists>a b. getCallChar t = [a] \<and> getPutChar t = [b] \<and> (of_char b :: nat) = of_char a + 12)
   \<and> (getCallChar t = ''A'' \<longleftrightarrow> Month t = January)
   \<and> (getPutChar t = ''M'' \<longleftrightarrow> Month t = January)
   \<and> ((\<forall>m. s \<noteq> Month_String m) \<longrightarrow>
        getCallChar_switch s = ''A'' \<and> getPutChar_switch s = ''M'')"
proof -
  have sw: "(\<forall>m. s \<noteq> Month_String m) \<longrightarrow>
        getCallChar_switch s = ''A'' \<and> getPutChar_switch s = ''M''"
  proof
    assume a: "\<forall>m. s \<noteq> Month_String m"
    have "s \<noteq> ''January''" "s \<noteq> ''February''" "s \<noteq> ''March''" "s \<noteq> ''April''"
      "s \<noteq> ''May''" "s \<noteq> ''June''" "s \<noteq> ''July''" "s \<noteq> ''August''" "s \<noteq> ''September''"
      "s \<noteq> ''October''" "s \<noteq> ''November''" "s \<noteq> ''December''"
      using a [rule_format, of January] a [rule_format, of February] a [rule_format, of March]
        a [rule_format, of April] a [rule_format, of May] a [rule_format, of June]
        a [rule_format, of July] a [rule_format, of August] a [rule_format, of September]
        a [rule_format, of October] a [rule_format, of November] a [rule_format, of December]
      by simp_all
    then show "getCallChar_switch s = ''A'' \<and> getPutChar_switch s = ''M''"
      by (simp add: getCallChar_switch_def getPutChar_switch_def)
  qed
  have rest: "getCallChar t = (case Month t of
       January \<Rightarrow> ''A'' | February \<Rightarrow> ''B'' | March \<Rightarrow> ''C'' | April \<Rightarrow> ''D''
     | May \<Rightarrow> ''E'' | June \<Rightarrow> ''F'' | July \<Rightarrow> ''G'' | August \<Rightarrow> ''H''
     | September \<Rightarrow> ''I'' | October \<Rightarrow> ''J'' | November \<Rightarrow> ''K'' | December \<Rightarrow> ''L'')
   \<and> getPutChar t = (case Month t of
       January \<Rightarrow> ''M'' | February \<Rightarrow> ''N'' | March \<Rightarrow> ''O'' | April \<Rightarrow> ''P''
     | May \<Rightarrow> ''Q'' | June \<Rightarrow> ''R'' | July \<Rightarrow> ''S'' | August \<Rightarrow> ''T''
     | September \<Rightarrow> ''U'' | October \<Rightarrow> ''V'' | November \<Rightarrow> ''W'' | December \<Rightarrow> ''X'')
   \<and> (\<exists>a b. getCallChar t = [a] \<and> getPutChar t = [b] \<and> (of_char b :: nat) = of_char a + 12)
   \<and> (getCallChar t = ''A'' \<longleftrightarrow> Month t = January)
   \<and> (getPutChar t = ''M'' \<longleftrightarrow> Month t = January)"
    by (cases "Month t")
      (simp_all add: getCallChar_def getPutChar_def getCallChar_switch_def getPutChar_switch_def)
  show ?thesis using sw rest by blast
qed

theorem month_letters_witness:
  "(\<forall>m. ''Smarch'' \<noteq> Month_String m)
   \<and> getCallChar time_march = ''C'' \<and> getPutChar time_march = ''O''
   \<and> getCallChar_switch ''Smarch'' = ''A'' \<and> getPutChar_switch ''Smarch'' = ''M''"
proof -
  have h: "\<forall>m. ''Smarch'' \<noteq> Month_String m"
  proof
    fix m show "''Smarch'' \<noteq> Month_String m" by (cases m) simp_all
  qed
  show ?thesis
    using h month_letters [of time_march "''Smarch''"]
    by (simp add: time_march_def)
qed

end
